theory Spec2Isabelle
  imports Main "HOL-Library.Multiset" "HOL-Library.Product_Lexorder"
begin

section \<open>The monitor registry of HwMonitorAlignment\<close>

text \<open>
  The development embeds \<^verbatim>\<open>hwmonitor/monitors/monitor_model.py\<close>: the class
  \<^verbatim>\<open>MonitorModel\<close>, an observable dictionary from device names to monitor objects
  with a handful of geometric queries. Methods take the model state and return the
  outcome of the call (a value, or the exception raised) paired with the state the
  object is left in.
\<close>

subsection \<open>Data\<close>

text \<open>
  Modelled from the spec: the class \<^verbatim>\<open>Monitor\<close> (\<^verbatim>\<open>hwmonitor.monitors.monitor\<close>) is
  imported by the model; its declaration is not among the source files. The
  fields are the attributes the model and the widgets read; coordinates and sizes are
  Python integers.
\<close>

record Monitor =
  device_name :: string
  index :: string
  position_x :: int
  position_y :: int
  screen_width :: int
  screen_height :: int
  primary :: bool

text \<open>The exceptions the model's methods can raise.\<close>

datatype py_error = ValueError | KeyError | LookupError | AttributeError

text \<open>
  Modelled from the spec: the base class \<^verbatim>\<open>Model\<close> (\<^verbatim>\<open>hwmonitor.core.model\<close>) supplies
  the three signals \<^verbatim>\<open>item_added\<close>, \<^verbatim>\<open>item_removed\<close> and \<^verbatim>\<open>model_reset\<close>; its
  declaration is not among the source files. An \<^verbatim>\<open>emit\<close> is recorded as one
  entry appended to the log of notifications fired so far.
\<close>

datatype event =
    ItemAdded string Monitor
  | ItemRemoved string Monitor
  | ModelReset

text \<open>
  A Python \<^verbatim>\<open>dict\<close> keeps its entries in insertion order; it is an association list
  whose keys are pairwise distinct.
\<close>

type_synonym ('k, 'v) dict = "('k \<times> 'v) list"

definition dict_wf :: "('k, 'v) dict \<Rightarrow> bool" where
  "dict_wf d = distinct (map fst d)"

definition dict_keys :: "('k, 'v) dict \<Rightarrow> 'k list" where
  "dict_keys d = map fst d"

definition dict_values :: "('k, 'v) dict \<Rightarrow> 'v list" where
  "dict_values d = map snd d"

text \<open>\<^verbatim>\<open>k in d\<close>\<close>

definition dict_contains :: "'k \<Rightarrow> ('k, 'v) dict \<Rightarrow> bool" where
  "dict_contains k d = (k \<in> set (dict_keys d))"

text \<open>\<^verbatim>\<open>d[k] = v\<close>: an existing key keeps its place, a new key goes to the end.\<close>

fun dict_setitem :: "'k \<Rightarrow> 'v \<Rightarrow> ('k, 'v) dict \<Rightarrow> ('k, 'v) dict" where
  "dict_setitem k v [] = [(k, v)]"
| "dict_setitem k v ((k', v') # rest) =
     (if k' = k then (k, v) # rest else (k', v') # dict_setitem k v rest)"

text \<open>\<^verbatim>\<open>d.pop(k)\<close>: raises \<^verbatim>\<open>KeyError\<close> on a missing key.\<close>

fun dict_pop :: "'k \<Rightarrow> ('k, 'v) dict \<Rightarrow> py_error + ('v \<times> ('k, 'v) dict)" where
  "dict_pop k [] = Inl KeyError"
| "dict_pop k ((k', v') # rest) =
     (if k' = k then Inr (v', rest)
      else (case dict_pop k rest of
              Inl e \<Rightarrow> Inl e
            | Inr (v, rest') \<Rightarrow> Inr (v, (k', v') # rest')))"

text \<open>\<^verbatim>\<open>d.get(k, default)\<close>: the caller's default may be any object.\<close>

datatype 'a or_default = Stored Monitor | Default 'a

fun dict_get :: "string \<Rightarrow> 'a \<Rightarrow> (string, Monitor) dict \<Rightarrow> 'a or_default" where
  "dict_get k dflt [] = Default dflt"
| "dict_get k dflt ((k', v') # rest) =
     (if k' = k then Stored v' else dict_get k dflt rest)"

subsection \<open>The model object\<close>

record MonitorModel =
  monitors :: "(string, Monitor) dict"
  emitted :: "event list"

text \<open>\<^verbatim>\<open>__init__\<close>\<close>

definition init :: MonitorModel where
  "init = \<lparr>monitors = [], emitted = []\<rparr>"

definition emit :: "event \<Rightarrow> MonitorModel \<Rightarrow> MonitorModel" where
  "emit e s = s\<lparr>emitted := emitted s @ [e]\<rparr>"

definition add :: "Monitor \<Rightarrow> MonitorModel \<Rightarrow> (py_error + unit) \<times> MonitorModel" where
  "add monitor s =
     (if dict_contains (device_name monitor) (monitors s) then (Inl ValueError, s)
      else
        (Inr (),
         emit (ItemAdded (device_name monitor) monitor)
           (s\<lparr>monitors := dict_setitem (device_name monitor) monitor (monitors s)\<rparr>)))"

definition pop :: "string \<Rightarrow> MonitorModel \<Rightarrow> (py_error + Monitor) \<times> MonitorModel" where
  "pop name s =
     (case dict_pop name (monitors s) of
        Inl e \<Rightarrow> (Inl e, s)
      | Inr (monitor, rest) \<Rightarrow>
          (Inr monitor, emit (ItemRemoved name monitor) (s\<lparr>monitors := rest\<rparr>)))"

definition remove :: "Monitor \<Rightarrow> MonitorModel \<Rightarrow> (py_error + unit) \<times> MonitorModel" where
  "remove monitor s =
     (case pop (device_name monitor) s of
        (Inl e, s') \<Rightarrow> (Inl e, s')
      | (Inr _, s') \<Rightarrow> (Inr (), s'))"

definition get :: "string \<Rightarrow> 'a \<Rightarrow> MonitorModel \<Rightarrow> 'a or_default" where
  "get name dflt s = dict_get name dflt (monitors s)"

definition items :: "MonitorModel \<Rightarrow> (string \<times> Monitor) list" where
  "items s = monitors s"

definition keys :: "MonitorModel \<Rightarrow> string list" where
  "keys s = dict_keys (monitors s)"

definition reset :: "MonitorModel \<Rightarrow> MonitorModel" where
  "reset s = emit ModelReset (s\<lparr>monitors := []\<rparr>)"

text \<open>\<^verbatim>\<open>__len__\<close>, \<^verbatim>\<open>__iter__\<close> and \<^verbatim>\<open>__contains__\<close>\<close>

definition len :: "MonitorModel \<Rightarrow> nat" where
  "len s = length (monitors s)"

definition iter :: "MonitorModel \<Rightarrow> Monitor list" where
  "iter s = dict_values (monitors s)"

definition contains :: "string \<Rightarrow> MonitorModel \<Rightarrow> bool" where
  "contains x s = dict_contains x (monitors s)"

subsection \<open>Queries\<close>

text \<open>
  \<^verbatim>\<open>filter\<close> is a generator over \<^verbatim>\<open>self.__monitors.values()\<close>; the list is what the
  generator yields when it is run to its end on the model as it stands.
\<close>

fun filter_loop :: "(Monitor \<Rightarrow> bool) \<Rightarrow> Monitor list \<Rightarrow> Monitor list" where
  "filter_loop operation [] = []"
| "filter_loop operation (monitor # rest) =
     (if operation monitor then monitor # filter_loop operation rest
      else filter_loop operation rest)"

definition filter_model :: "(Monitor \<Rightarrow> bool) \<Rightarrow> MonitorModel \<Rightarrow> Monitor list" where
  "filter_model operation s = filter_loop operation (dict_values (monitors s))"

definition get_primary_monitor :: "MonitorModel \<Rightarrow> Monitor list" where
  "get_primary_monitor s = filter_model (\<lambda>monitor. primary monitor) s"

text \<open>
  The wording of the specification for the primary monitors: the stored descriptors
  whose flag is set, in the order of the model.
\<close>

definition spec_primary_descriptors :: "MonitorModel \<Rightarrow> Monitor list" where
  "spec_primary_descriptors s = [d \<leftarrow> iter s. primary d = True]"

text \<open>
  \<^verbatim>\<open>sorted(values, key=...)\<close>: Python's \<^verbatim>\<open>sorted\<close> is a stable sort, and tuples compare
  lexicographically. The result of a stable sort is determined by the input and the
  key, so the stable insertion sort \<^const>\<open>sort_key\<close> on lexicographically ordered
  pairs computes it.
\<close>

definition order_key :: "Monitor \<Rightarrow> int \<times> int" where
  "order_key monitor = (position_x monitor, position_y monitor)"

definition get_monitor_order :: "MonitorModel \<Rightarrow> Monitor list" where
  "get_monitor_order s = sort_key order_key (dict_values (monitors s))"

text \<open>The comparison of two sort keys written out: ascending x, then ascending y.\<close>

definition key_le :: "Monitor \<Rightarrow> Monitor \<Rightarrow> bool" where
  "key_le a b =
     (position_x a < position_x b \<or>
      (position_x a = position_x b \<and> position_y a \<le> position_y b))"

fun position_loop :: "int \<Rightarrow> int \<Rightarrow> Monitor list \<Rightarrow> py_error + Monitor" where
  "position_loop x y [] = Inl LookupError"
| "position_loop x y (monitor # rest) =
     (if (position_x monitor \<le> x \<and> x \<le> position_x monitor + screen_width monitor) \<and>
         (position_y monitor \<le> y \<and> y \<le> position_y monitor + screen_height monitor)
      then Inr monitor
      else position_loop x y rest)"

definition get_from_position :: "int \<Rightarrow> int \<Rightarrow> MonitorModel \<Rightarrow> py_error + Monitor" where
  "get_from_position x y s = position_loop x y (dict_values (monitors s))"

text \<open>The closed rectangle of a monitor, as the specification words it.\<close>

definition in_rectangle :: "int \<Rightarrow> int \<Rightarrow> Monitor \<Rightarrow> bool" where
  "in_rectangle x y m =
     (x \<in> {position_x m .. position_x m + screen_width m} \<and>
      y \<in> {position_y m .. position_y m + screen_height m})"

text \<open>
  \<^verbatim>\<open>get_vscreen_size\<close> iterates over the dictionary itself, which yields its keys. The
  loop variable is therefore a \<^verbatim>\<open>str\<close>, and reading \<^verbatim>\<open>position_x\<close> from a \<^verbatim>\<open>str\<close>
  raises \<^verbatim>\<open>AttributeError\<close>. The objects the loop variable can hold and the attribute
  reads are modelled with their dynamic type.
\<close>

datatype pyobj = PyStr string | PyMonitor Monitor

fun getattr_int :: "(Monitor \<Rightarrow> int) \<Rightarrow> pyobj \<Rightarrow> py_error + int" where
  "getattr_int field (PyMonitor m) = Inr (field m)"
| "getattr_int field (PyStr _) = Inl AttributeError"

definition then_do :: "py_error + 'a \<Rightarrow> ('a \<Rightarrow> py_error + 'b) \<Rightarrow> py_error + 'b" where
  "then_do r f = (case r of Inl e \<Rightarrow> Inl e | Inr v \<Rightarrow> f v)"

fun vscreen_loop ::
  "pyobj list \<Rightarrow> int \<times> int \<times> int \<times> int \<Rightarrow> py_error + (int \<times> int \<times> int \<times> int)" where
  "vscreen_loop [] bounds = Inr bounds"
| "vscreen_loop (monitor # rest) (min_x, max_x, min_y, max_y) =
     then_do (getattr_int position_x monitor) (\<lambda>px.
     then_do (getattr_int position_x monitor) (\<lambda>px'.
     then_do (getattr_int screen_width monitor) (\<lambda>w.
     then_do (getattr_int position_y monitor) (\<lambda>py.
     then_do (getattr_int position_y monitor) (\<lambda>py'.
     then_do (getattr_int screen_height monitor) (\<lambda>h.
       vscreen_loop rest
         (min min_x px, max max_x (px' + w), min min_y py, max max_y (py' + h))))))))"

definition get_vscreen_size :: "MonitorModel \<Rightarrow> py_error + (int \<times> int)" where
  "get_vscreen_size s =
     then_do (vscreen_loop (map PyStr (dict_keys (monitors s))) (0, 0, 0, 0))
       (\<lambda>(min_x, max_x, min_y, max_y). Inr (max_x - min_x, max_y - min_y))"

subsection \<open>Reachable states and the key invariant\<close>

text \<open>
  The states a model object can be in: a fresh object, and whatever a call of one of
  the mutators leaves behind (a call that raises leaves the object as it was, which is
  the second component of its outcome).
\<close>

inductive reachable :: "MonitorModel \<Rightarrow> bool" where
  reach_init: "reachable init"
| reach_add: "reachable s \<Longrightarrow> reachable (snd (add d s))"
| reach_remove: "reachable s \<Longrightarrow> reachable (snd (remove d s))"
| reach_pop: "reachable s \<Longrightarrow> reachable (snd (pop n s))"
| reach_reset: "reachable s \<Longrightarrow> reachable (reset s)"

definition key_inv :: "MonitorModel \<Rightarrow> bool" where
  "key_inv s = list_all (\<lambda>(k, m). device_name m = k) (monitors s)"

subsection \<open>Example data\<close>

definition mon :: "string \<Rightarrow> int \<Rightarrow> int \<Rightarrow> int \<Rightarrow> int \<Rightarrow> bool \<Rightarrow> Monitor" where
  "mon n x y w h p =
     \<lparr>device_name = n, index = n, position_x = x, position_y = y,
      screen_width = w, screen_height = h, primary = p\<rparr>"

definition model_of :: "Monitor list \<Rightarrow> MonitorModel" where
  "model_of ms = \<lparr>monitors = map (\<lambda>m. (device_name m, m)) ms, emitted = []\<rparr>"

text \<open>
  Two monitors side by side that share the edge \<open>x = 100\<close>, a third one below the
  first, and a fourth one that sits exactly where the second one does.
\<close>

definition ex_a :: Monitor where
  "ex_a = mon ''A'' 0 0 100 100 True"

definition ex_b :: Monitor where
  "ex_b = mon ''B'' 100 0 100 100 False"

definition ex_c :: Monitor where
  "ex_c = mon ''C'' 0 50 100 100 False"

definition ex_d :: Monitor where
  "ex_d = mon ''D'' 100 0 640 480 True"

section \<open>Dictionary lemmas\<close>

lemma dict_setitem_fresh:
  "k \<notin> set (map fst d) \<Longrightarrow> dict_setitem k v d = d @ [(k, v)]"
  by (induction d) auto

lemma dict_pop_absent:
  "k \<notin> set (map fst d) \<Longrightarrow> dict_pop k d = Inl KeyError"
  by (induction d) auto

lemma map_of_snoc_fresh:
  "k \<notin> set (map fst d) \<Longrightarrow> map_of (d @ [(k, v)]) = (map_of d)(k \<mapsto> v)"
  by (induction d) (auto simp: fun_upd_twist)

lemma dict_pop_present:
  "map_of d k = Some v \<Longrightarrow> dict_pop k d = Inr (v, remove1 (k, v) d)"
  by (induction d) (auto split: if_splits)

lemma remove1_drops_key:
  "distinct (map fst d) \<Longrightarrow> map_of d k = Some v \<Longrightarrow> k \<notin> set (map fst (remove1 (k, v) d))"
  by (induction d) (auto split: if_splits simp: rev_image_eqI)

lemma map_of_remove1:
  "distinct (map fst d) \<Longrightarrow> map_of d k = Some v \<Longrightarrow>
   map_of (remove1 (k, v) d) = (map_of d)(k := None)"
  by (induction d) (auto split: if_splits simp: fun_upd_twist map_of_eq_None_iff rev_image_eqI)

lemma dict_get_map_of:
  "dict_get k dflt d = (case map_of d k of None \<Rightarrow> Default dflt | Some m \<Rightarrow> Stored m)"
  by (induction d) auto

lemma contains_map_of: "contains n s \<longleftrightarrow> map_of (monitors s) n \<noteq> None"
  by (simp add: contains_def dict_contains_def dict_keys_def map_of_eq_None_iff)

lemma pop_present:
  "map_of (monitors s) n = Some m \<Longrightarrow>
   pop n s = (Inr m, s\<lparr>monitors := remove1 (n, m) (monitors s),
                        emitted := emitted s @ [ItemRemoved n m]\<rparr>)"
  by (simp add: pop_def dict_pop_present emit_def)

lemma pop_absent: "\<not> contains n s \<Longrightarrow> pop n s = (Inl KeyError, s)"
  by (simp add: pop_def contains_def dict_contains_def dict_keys_def dict_pop_absent)

lemma snd_remove: "snd (remove d s) = snd (pop (device_name d) s)"
  by (simp add: remove_def split: prod.splits sum.splits)

lemmas ex = ex_a_def ex_b_def ex_c_def ex_d_def mon_def model_of_def

section \<open>Reachable models are dictionaries\<close>

text \<open>
  The keys of every reachable model are pairwise distinct, as the keys of a Python
  \<^verbatim>\<open>dict\<close> are.
\<close>

lemma dict_pop_result:
  "dict_pop k d = Inr (v, rest) \<Longrightarrow> map_of d k = Some v \<and> rest = remove1 (k, v) d"
  by (induction d arbitrary: rest) (auto split: if_splits sum.splits)

lemma distinct_keys_remove1:
  "distinct (map fst d) \<Longrightarrow> distinct (map fst (remove1 x d))"
proof (induction d)
  case Nil
  then show ?case by simp
next
  case (Cons p d)
  have "fst ` set (remove1 x d) \<subseteq> fst ` set d"
    using set_remove1_subset [of x d] by blast
  with Cons show ?case by auto
qed

lemma dict_wf_add: "dict_wf (monitors s) \<Longrightarrow> dict_wf (monitors (snd (add d s)))"
  by (simp add: add_def emit_def dict_wf_def dict_contains_def dict_keys_def dict_setitem_fresh)

lemma dict_wf_pop: "dict_wf (monitors s) \<Longrightarrow> dict_wf (monitors (snd (pop n s)))"
  by (auto simp: pop_def emit_def dict_wf_def distinct_keys_remove1
      split: sum.splits dest!: dict_pop_result)

lemma reachable_dict_wf: "reachable s \<Longrightarrow> dict_wf (monitors s)"
proof (induction rule: reachable.induct)
  case reach_init
  show ?case by (simp add: init_def dict_wf_def)
next
  case (reach_add s d)
  then show ?case by (simp add: dict_wf_add)
next
  case (reach_remove s d)
  then show ?case by (simp add: snd_remove dict_wf_pop)
next
  case (reach_pop s n)
  then show ?case by (simp add: dict_wf_pop)
next
  case (reach_reset s)
  show ?case by (simp add: reset_def emit_def dict_wf_def)
qed

section \<open>Adding a monitor\<close>

text \<open>
  C1. Adding a descriptor whose device name is already a key fails with the duplicate
  key error (\<^verbatim>\<open>ValueError\<close> in the source), leaves the model as it was and fires no
  notification. Adding a descriptor whose device name is absent succeeds, stores the
  descriptor under its device name (behind the existing entries, which are untouched)
  and fires exactly one \<^verbatim>\<open>ItemAdded(device_name, descriptor)\<close> notification.
\<close>

theorem add_duplicate_or_insert:
  "(contains (device_name d) s \<longrightarrow> add d s = (Inl ValueError, s)) \<and>
   (\<not> contains (device_name d) s \<longrightarrow>
      fst (add d s) = Inr () \<and>
      monitors (snd (add d s)) = monitors s @ [(device_name d, d)] \<and>
      map_of (monitors (snd (add d s))) = (map_of (monitors s))(device_name d \<mapsto> d) \<and>
      emitted (snd (add d s)) = emitted s @ [ItemAdded (device_name d) d])"
proof (cases "contains (device_name d) s")
  case True
  then show ?thesis by (simp add: add_def contains_def)
next
  case False
  then have fresh: "device_name d \<notin> set (map fst (monitors s))"
    by (simp add: contains_def dict_contains_def dict_keys_def)
  have m: "monitors (snd (add d s)) = monitors s @ [(device_name d, d)]"
    using False by (simp add: add_def contains_def emit_def dict_setitem_fresh [OF fresh])
  have "map_of (monitors s @ [(device_name d, d)]) = (map_of (monitors s))(device_name d \<mapsto> d)"
    by (rule map_of_snoc_fresh [OF fresh])
  with m False show ?thesis
    by (simp add: add_def contains_def emit_def)
qed

text \<open>
  Witness: adding a second descriptor named \<open>A\<close> to a model that holds \<open>A\<close> is
  refused and changes nothing; adding \<open>B\<close> appends it and fires one notification.
\<close>

theorem add_duplicate_or_insert_witness:
  "contains ''A'' (model_of [ex_a]) \<and>
   add (mon ''A'' 7 7 10 10 False) (model_of [ex_a]) = (Inl ValueError, model_of [ex_a]) \<and>
   \<not> contains ''B'' (model_of [ex_a]) \<and>
   fst (add ex_b (model_of [ex_a])) = Inr () \<and>
   monitors (snd (add ex_b (model_of [ex_a]))) = [(''A'', ex_a), (''B'', ex_b)] \<and>
   emitted (snd (add ex_b (model_of [ex_a]))) = [ItemAdded ''B'' ex_b]"
  using add_duplicate_or_insert [where d = "mon ''A'' 7 7 10 10 False" and s = "model_of [ex_a]"]
    add_duplicate_or_insert [where d = ex_b and s = "model_of [ex_a]"]
  by (simp add: ex contains_def dict_contains_def dict_keys_def)

section \<open>The size of the virtual screen\<close>

text \<open>
  What the loop of \<^verbatim>\<open>get_vscreen_size\<close> does as it is written: with no entry the body
  never runs; with any entry the loop variable is a key, and the first attribute read
  raises.
\<close>

lemma get_vscreen_size_keys:
  "get_vscreen_size s = (if monitors s = [] then Inr (0, 0) else Inl AttributeError)"
  by (cases "monitors s") (auto simp: get_vscreen_size_def dict_keys_def then_do_def)

text \<open>
  C2. The claim says that \<^verbatim>\<open>get_vscreen_size()\<close> returns \<open>(0, 0)\<close> for every registry.
  The code does so on the empty registry only. On the registry that holds the single
  monitor \<open>A\<close> the loop variable is the key \<open>A\<close>, a string, and the call raises
  \<^verbatim>\<open>AttributeError\<close> instead of returning a size. The loop body reads monitor
  attributes, and the same loop run over the stored descriptors, as every other
  method of the class iterates them, ends with the bounds of \<open>A\<close>, that is the size
  \<open>(100, 100)\<close>: iterating the keys is a slip of the code.
\<close>

theorem get_vscreen_size_raises_on_stored_monitor:
  "get_vscreen_size init = Inr (0, 0) \<and>
   get_vscreen_size (model_of [ex_a]) = Inl AttributeError \<and>
   get_vscreen_size (model_of [ex_a]) \<noteq> Inr (0, 0) \<and>
   vscreen_loop (map PyMonitor (iter (model_of [ex_a]))) (0, 0, 0, 0) = Inr (0, 100, 0, 100)"
  by (simp add: ex init_def get_vscreen_size_def dict_keys_def dict_values_def iter_def
      then_do_def)

section \<open>Looking a monitor up by position\<close>

lemma position_loop_find:
  "position_loop x y ms =
     (case find (in_rectangle x y) ms of None \<Rightarrow> Inl LookupError | Some m \<Rightarrow> Inr m)"
  by (induction ms) (auto simp: in_rectangle_def)

text \<open>
  C3. \<^verbatim>\<open>get_from_position(x, y)\<close> returns a descriptor \<open>m\<close> exactly when \<open>m\<close> is the
  first one, in the order of the model, whose closed rectangle
  \<open>[position_x, position_x + screen_width] \<times> [position_y, position_y + screen_height]\<close>
  contains the point. It fails exactly when no stored rectangle contains the point, and
  then with the out-of-bounds error (\<^verbatim>\<open>LookupError\<close> in the source). With \<open>A\<close> at
  \<open>[0, 0, 100, 100]\<close> and \<open>B\<close> at \<open>[100, 0, 100, 100]\<close>, whatever their names and flags,
  \<open>(50, 50)\<close> gives \<open>A\<close>, \<open>(150, 50)\<close> gives \<open>B\<close> and \<open>(250, 50)\<close> fails.
\<close>

theorem get_from_position_first_match:
  "(get_from_position x y s = Inr m \<longleftrightarrow>
      (\<exists>i < length (iter s). iter s ! i = m \<and> in_rectangle x y m \<and>
         (\<forall>j < i. \<not> in_rectangle x y (iter s ! j)))) \<and>
   (get_from_position x y s = Inl e \<longleftrightarrow>
      e = LookupError \<and> (\<forall>m \<in> set (iter s). \<not> in_rectangle x y m)) \<and>
   (get_from_position 50 50 (model_of [mon a 0 0 100 100 pa, mon b 100 0 100 100 pb])
      = Inr (mon a 0 0 100 100 pa)) \<and>
   (get_from_position 150 50 (model_of [mon a 0 0 100 100 pa, mon b 100 0 100 100 pb])
      = Inr (mon b 100 0 100 100 pb)) \<and>
   (get_from_position 250 50 (model_of [mon a 0 0 100 100 pa, mon b 100 0 100 100 pb])
      = Inl LookupError)"
proof -
  let ?r = "find (in_rectangle x y) (iter s)"
  have g: "get_from_position x y s = (case ?r of None \<Rightarrow> Inl LookupError | Some m \<Rightarrow> Inr m)"
    by (simp add: get_from_position_def iter_def position_loop_find)
  have 1: "get_from_position x y s = Inr m \<longleftrightarrow>
      (\<exists>i < length (iter s). iter s ! i = m \<and> in_rectangle x y m \<and>
         (\<forall>j < i. \<not> in_rectangle x y (iter s ! j)))"
  proof -
    have "get_from_position x y s = Inr m \<longleftrightarrow> ?r = Some m"
      by (simp add: g split: option.splits)
    also have "\<dots> \<longleftrightarrow> (\<exists>i < length (iter s). iter s ! i = m \<and> in_rectangle x y m \<and>
         (\<forall>j < i. \<not> in_rectangle x y (iter s ! j)))"
      by (auto simp: find_Some_iff)
    finally show ?thesis .
  qed
  have 2: "get_from_position x y s = Inl e \<longleftrightarrow>
      e = LookupError \<and> (\<forall>m \<in> set (iter s). \<not> in_rectangle x y m)"
  proof -
    have "get_from_position x y s = Inl e \<longleftrightarrow> e = LookupError \<and> ?r = None"
      by (auto simp: g split: option.splits)
    then show ?thesis
      by (auto simp: find_None_iff)
  qed
  have 3: "get_from_position 50 50 (model_of [mon a 0 0 100 100 pa, mon b 100 0 100 100 pb])
      = Inr (mon a 0 0 100 100 pa)"
    by (simp add: get_from_position_def model_of_def mon_def dict_values_def)
  have 4: "get_from_position 150 50 (model_of [mon a 0 0 100 100 pa, mon b 100 0 100 100 pb])
      = Inr (mon b 100 0 100 100 pb)"
    by (simp add: get_from_position_def model_of_def mon_def dict_values_def)
  have 5: "get_from_position 250 50 (model_of [mon a 0 0 100 100 pa, mon b 100 0 100 100 pb])
      = Inl LookupError"
    by (simp add: get_from_position_def model_of_def mon_def dict_values_def)
  from 1 2 3 4 5 show ?thesis by blast
qed

text \<open>
  Witness: the point \<open>(100, 50)\<close> lies on the shared edge of \<open>A\<close> and \<open>B\<close> and goes to
  \<open>A\<close>, the earlier entry; \<open>(101, 50)\<close> lies in \<open>B\<close> only; \<open>(250, 50)\<close> lies in neither.
\<close>

theorem get_from_position_first_match_witness:
  "get_from_position 100 50 (model_of [ex_a, ex_b]) = Inr ex_a \<and>
   iter (model_of [ex_a, ex_b]) ! 0 = ex_a \<and>
   in_rectangle 100 50 ex_a \<and> in_rectangle 100 50 ex_b \<and>
   get_from_position 101 50 (model_of [ex_a, ex_b]) = Inr ex_b \<and>
   \<not> in_rectangle 101 50 ex_a \<and>
   get_from_position 250 50 (model_of [ex_a, ex_b]) = Inl LookupError \<and>
   \<not> in_rectangle 250 50 ex_a \<and> \<not> in_rectangle 250 50 ex_b"
  using get_from_position_first_match [where x = 100 and y = 50 and s = "model_of [ex_a, ex_b]" and m = ex_a]
    get_from_position_first_match [where x = 101 and y = 50 and s = "model_of [ex_a, ex_b]" and m = ex_b]
    get_from_position_first_match [where x = 250 and y = 50 and s = "model_of [ex_a, ex_b]" and e = LookupError]
  by (simp add: ex get_from_position_def dict_values_def iter_def in_rectangle_def)

section \<open>The order of the monitors\<close>

lemma order_key_le: "order_key a \<le> order_key b \<longleftrightarrow> key_le a b"
  by (auto simp: order_key_def key_le_def less_eq_prod_def)

lemma sorted_wrt_sort_key: "sorted_wrt key_le (sort_key order_key ms)"
proof -
  have "sorted (map order_key (sort_key order_key ms))"
    by (rule sorted_sort_key)
  then show ?thesis
    by (simp add: sorted_map order_key_le)
qed

text \<open>
  C4. \<^verbatim>\<open>get_monitor_order\<close> returns a permutation of the stored descriptors, sorted
  ascending by \<open>(position_x, position_y)\<close>, and the sort is stable: the descriptors at
  any one position come out in the order the model holds them. Monitors at \<open>(0, 0)\<close>,
  \<open>(100, 0)\<close> and \<open>(0, 50)\<close>, stored in this order, come out as \<open>(0, 0)\<close>, \<open>(0, 50)\<close>,
  \<open>(100, 0)\<close>.
\<close>

theorem get_monitor_order_sorted_stable:
  "mset (get_monitor_order s) = mset (iter s) \<and>
   sorted_wrt key_le (get_monitor_order s) \<and>
   [m \<leftarrow> get_monitor_order s. position_x m = x \<and> position_y m = y] =
     [m \<leftarrow> iter s. position_x m = x \<and> position_y m = y] \<and>
   get_monitor_order
     (model_of [mon a 0 0 wa ha pa, mon b 100 0 wb hb pb, mon c 0 50 wc hc pc]) =
     [mon a 0 0 wa ha pa, mon c 0 50 wc hc pc, mon b 100 0 wb hb pb]"
proof -
  have 1: "mset (get_monitor_order s) = mset (iter s)"
    by (simp add: get_monitor_order_def iter_def)
  have 2: "sorted_wrt key_le (get_monitor_order s)"
    by (simp add: get_monitor_order_def sorted_wrt_sort_key)
  have k: "(\<lambda>m. position_x m = x \<and> position_y m = y) = (\<lambda>m. order_key m = (x, y))"
    by (auto simp: order_key_def)
  have 3: "[m \<leftarrow> get_monitor_order s. position_x m = x \<and> position_y m = y] =
     [m \<leftarrow> iter s. position_x m = x \<and> position_y m = y]"
    unfolding k get_monitor_order_def iter_def by (rule sort_key_stable)
  have 4: "get_monitor_order
     (model_of [mon a 0 0 wa ha pa, mon b 100 0 wb hb pb, mon c 0 50 wc hc pc]) =
     [mon a 0 0 wa ha pa, mon c 0 50 wc hc pc, mon b 100 0 wb hb pb]"
    by (simp add: get_monitor_order_def model_of_def mon_def dict_values_def order_key_def)
  from 1 2 3 4 show ?thesis by blast
qed

text \<open>
  Witness: \<open>B\<close> and \<open>D\<close> share the position \<open>(100, 0)\<close>; whichever was inserted first
  comes first.
\<close>

theorem get_monitor_order_sorted_stable_witness:
  "get_monitor_order (model_of [ex_a, ex_b, ex_c, ex_d]) = [ex_a, ex_c, ex_b, ex_d] \<and>
   get_monitor_order (model_of [ex_d, ex_c, ex_b, ex_a]) = [ex_a, ex_c, ex_d, ex_b] \<and>
   key_le ex_b ex_d \<and> key_le ex_d ex_b"
  using get_monitor_order_sorted_stable [where s = "model_of [ex_a, ex_b, ex_c, ex_d]"]
    get_monitor_order_sorted_stable [where s = "model_of [ex_d, ex_c, ex_b, ex_a]"]
  by (simp add: ex get_monitor_order_def dict_values_def order_key_def key_le_def)

section \<open>Removing a monitor\<close>

text \<open>
  C5. If the name \<open>n\<close> is absent, \<^verbatim>\<open>pop(n)\<close>, and with it \<^verbatim>\<open>remove\<close> of any descriptor
  named \<open>n\<close>, fails with the not-found error (\<^verbatim>\<open>KeyError\<close> in the source), and the
  model, its notification log included, is as before. If \<open>n\<close> is present with the
  descriptor \<open>m\<close>, \<^verbatim>\<open>pop(n)\<close> returns \<open>m\<close>, takes exactly that one entry out, and fires
  exactly one \<^verbatim>\<open>ItemRemoved(n, m)\<close>; in a dictionary (keys pairwise distinct) \<open>n\<close> is
  then no longer a key and every other key maps to what it did.
\<close>

theorem pop_not_found_or_removed:
  "(contains n s \<longleftrightarrow> map_of (monitors s) n \<noteq> None) \<and>
   (\<not> contains n s \<longrightarrow>
      pop n s = (Inl KeyError, s) \<and>
      (device_name d = n \<longrightarrow> remove d s = (Inl KeyError, s))) \<and>
   (map_of (monitors s) n = Some m \<longrightarrow>
      pop n s = (Inr m, s\<lparr>monitors := remove1 (n, m) (monitors s),
                           emitted := emitted s @ [ItemRemoved n m]\<rparr>) \<and>
      len (snd (pop n s)) + 1 = len s \<and>
      (dict_wf (monitors s) \<longrightarrow>
         \<not> contains n (snd (pop n s)) \<and>
         map_of (monitors (snd (pop n s))) = (map_of (monitors s))(n := None)))"
proof -
  have 2: "\<not> contains n s \<longrightarrow> pop n s = (Inl KeyError, s) \<and>
      (device_name d = n \<longrightarrow> remove d s = (Inl KeyError, s))"
    by (simp add: remove_def pop_absent)
  have 3: "pop n s = (Inr m, s\<lparr>monitors := remove1 (n, m) (monitors s),
                           emitted := emitted s @ [ItemRemoved n m]\<rparr>) \<and>
      len (snd (pop n s)) + 1 = len s \<and>
      (dict_wf (monitors s) \<longrightarrow>
         \<not> contains n (snd (pop n s)) \<and>
         map_of (monitors (snd (pop n s))) = (map_of (monitors s))(n := None))"
    if p: "map_of (monitors s) n = Some m"
  proof -
    have mem: "(n, m) \<in> set (monitors s)"
      using p by (rule map_of_SomeD)
    then have len: "length (remove1 (n, m) (monitors s)) + 1 = length (monitors s)"
      using length_pos_if_in_set [OF mem] by (simp add: length_remove1)
    have res: "monitors (snd (pop n s)) = remove1 (n, m) (monitors s)"
      by (simp add: pop_present [OF p])
    have gone: "\<not> contains n (snd (pop n s))" if "dict_wf (monitors s)"
      using remove1_drops_key [OF _ p] that
      by (simp only: res contains_def dict_contains_def dict_keys_def dict_wf_def not_False_eq_True)
    have upd: "map_of (monitors (snd (pop n s))) = (map_of (monitors s))(n := None)"
      if "dict_wf (monitors s)"
      using map_of_remove1 [OF _ p] that by (simp only: res dict_wf_def)
    from len gone upd show ?thesis
      by (simp add: pop_present [OF p] len_def)
  qed
  from 2 3 contains_map_of show ?thesis by blast
qed

text \<open>
  Witness: popping the absent \<open>C\<close> and the present \<open>A\<close> from a model of \<open>A\<close> and \<open>B\<close>.
\<close>

theorem pop_not_found_or_removed_witness:
  "\<not> contains ''C'' (model_of [ex_a, ex_b]) \<and>
   pop ''C'' (model_of [ex_a, ex_b]) = (Inl KeyError, model_of [ex_a, ex_b]) \<and>
   remove ex_c (model_of [ex_a, ex_b]) = (Inl KeyError, model_of [ex_a, ex_b]) \<and>
   map_of (monitors (model_of [ex_a, ex_b])) ''A'' = Some ex_a \<and>
   dict_wf (monitors (model_of [ex_a, ex_b])) \<and>
   pop ''A'' (model_of [ex_a, ex_b]) =
     (Inr ex_a, \<lparr>monitors = [(''B'', ex_b)], emitted = [ItemRemoved ''A'' ex_a]\<rparr>) \<and>
   \<not> contains ''A'' (snd (pop ''A'' (model_of [ex_a, ex_b])))"
  using pop_not_found_or_removed [where n = "''C''" and s = "model_of [ex_a, ex_b]" and d = ex_c]
    pop_not_found_or_removed [where n = "''A''" and s = "model_of [ex_a, ex_b]" and m = ex_a]
  by (simp add: ex contains_def dict_contains_def dict_keys_def dict_wf_def)

text \<open>
  C10. \<^verbatim>\<open>remove(d)\<close> looks at \<open>d.device_name\<close> only. When that name is a key,
  the call succeeds, takes out the descriptor stored under the name, and the
  \<^verbatim>\<open>ItemRemoved\<close> notification carries the stored descriptor, not the argument. Two
  arguments with the same device name have the same outcome.
\<close>

theorem remove_keys_on_device_name:
  "(map_of (monitors s) (device_name d) = Some stored \<longrightarrow>
      remove d s = (Inr (), s\<lparr>monitors := remove1 (device_name d, stored) (monitors s),
                        emitted := emitted s @ [ItemRemoved (device_name d) stored]\<rparr>)) \<and>
   (device_name d' = device_name d \<longrightarrow> remove d' s = remove d s)"
  by (simp add: remove_def pop_present)

text \<open>
  Witness: removing with a descriptor that is named \<open>B\<close> but differs from the stored
  \<open>B\<close> in every other field.
\<close>

theorem remove_keys_on_device_name_witness:
  "map_of (monitors (model_of [ex_a, ex_b])) (device_name (mon ''B'' 3 4 5 6 True)) = Some ex_b \<and>
   remove (mon ''B'' 3 4 5 6 True) (model_of [ex_a, ex_b]) =
     (Inr (), \<lparr>monitors = [(''A'', ex_a)], emitted = [ItemRemoved ''B'' ex_b]\<rparr>) \<and>
   remove ex_b (model_of [ex_a, ex_b]) = remove (mon ''B'' 3 4 5 6 True) (model_of [ex_a, ex_b])"
  using remove_keys_on_device_name [where d = "mon ''B'' 3 4 5 6 True" and s = "model_of [ex_a, ex_b]" and stored = ex_b
      and d' = ex_b]
  by (simp add: ex)

section \<open>Resetting the model\<close>

text \<open>
  C6. After \<^verbatim>\<open>reset()\<close> the model is empty, whatever it held before, and the
  notifications fired by the call are exactly one \<^verbatim>\<open>ModelReset\<close>: no
  \<^verbatim>\<open>ItemRemoved\<close> is among them.
\<close>

theorem reset_clears_with_one_notification:
  "len (reset s) = 0 \<and> monitors (reset s) = [] \<and> emitted (reset s) = emitted s @ [ModelReset] \<and>
   drop (length (emitted s)) (emitted (reset s)) = [ModelReset]"
  by (simp add: reset_def emit_def len_def)

text \<open>
  Witness: resetting a model of two monitors, and a fresh model.
\<close>

theorem reset_clears_with_one_notification_witness:
  "reset (model_of [ex_a, ex_b]) = \<lparr>monitors = [], emitted = [ModelReset]\<rparr> \<and>
   reset init = \<lparr>monitors = [], emitted = [ModelReset]\<rparr>"
  using reset_clears_with_one_notification [where s = "model_of [ex_a, ex_b]"] reset_clears_with_one_notification [where s = init]
  by (simp add: ex reset_def emit_def init_def)

section \<open>Adding, looking up and popping\<close>

text \<open>
  C7. For a descriptor \<open>d\<close> whose device name is not yet a key: after \<^verbatim>\<open>add(d)\<close>,
  \<^verbatim>\<open>get(d.device_name)\<close> returns \<open>d\<close>; \<^verbatim>\<open>pop(d.device_name)\<close> then returns \<open>d\<close>, and
  after it \<^verbatim>\<open>get(d.device_name, default)\<close> returns the default and the dictionary is
  what it was before the \<^verbatim>\<open>add\<close>. \<^verbatim>\<open>get\<close> raises for no name and no model: it
  returns the stored descriptor, or the default when there is none.
\<close>

theorem add_get_pop_roundtrip:
  "(\<not> contains (device_name d) s \<longrightarrow>
      fst (add d s) = Inr () \<and>
      get (device_name d) dflt (snd (add d s)) = Stored d \<and>
      fst (pop (device_name d) (snd (add d s))) = Inr d \<and>
      get (device_name d) dflt (snd (pop (device_name d) (snd (add d s)))) = Default dflt \<and>
      monitors (snd (pop (device_name d) (snd (add d s)))) = monitors s) \<and>
   get n dflt t = (case map_of (monitors t) n of None \<Rightarrow> Default dflt | Some m \<Rightarrow> Stored m)"
proof -
  have 1: "fst (add d s) = Inr () \<and>
      get (device_name d) dflt (snd (add d s)) = Stored d \<and>
      fst (pop (device_name d) (snd (add d s))) = Inr d \<and>
      get (device_name d) dflt (snd (pop (device_name d) (snd (add d s)))) = Default dflt \<and>
      monitors (snd (pop (device_name d) (snd (add d s)))) = monitors s"
    if fresh: "\<not> contains (device_name d) s"
  proof -
    let ?n = "device_name d"
    let ?s1 = "snd (add d s)"
    have nk: "?n \<notin> set (map fst (monitors s))"
      using fresh by (simp add: contains_def dict_contains_def dict_keys_def)
    then have np: "(?n, d) \<notin> set (monitors s)"
      by (auto simp: rev_image_eqI)
    have none: "map_of (monitors s) ?n = None"
      using nk by (simp add: map_of_eq_None_iff)
    have ok: "fst (add d s) = Inr ()"
      using fresh by (simp add: add_def contains_def)
    have m1: "monitors ?s1 = monitors s @ [(?n, d)]"
      using fresh by (simp add: add_def contains_def emit_def dict_setitem_fresh [OF nk])
    have "map_of (monitors s @ [(?n, d)]) = (map_of (monitors s))(?n \<mapsto> d)"
      by (rule map_of_snoc_fresh [OF nk])
    then have look: "map_of (monitors ?s1) ?n = Some d"
      by (simp only: m1 fun_upd_same)
    have g1: "get ?n dflt ?s1 = Stored d"
      by (simp add: get_def dict_get_map_of look)
    have p: "pop ?n ?s1 = (Inr d, ?s1\<lparr>monitors := remove1 (?n, d) (monitors ?s1),
                        emitted := emitted ?s1 @ [ItemRemoved ?n d]\<rparr>)"
      by (rule pop_present [OF look])
    have m2: "monitors (snd (pop ?n ?s1)) = monitors s"
      using np by (simp add: p m1 remove1_append)
    have g2: "get ?n dflt (snd (pop ?n ?s1)) = Default dflt"
      by (simp add: get_def dict_get_map_of m2 none)
    from ok g1 p m2 g2 show ?thesis by simp
  qed
  have 2: "get n dflt t = (case map_of (monitors t) n of None \<Rightarrow> Default dflt | Some m \<Rightarrow> Stored m)"
    by (simp add: get_def dict_get_map_of)
  from 1 2 show ?thesis by blast
qed

text \<open>
  Witness: adding \<open>B\<close> to a model of \<open>A\<close>, with the default \<open>0\<close>.
\<close>

theorem add_get_pop_roundtrip_witness:
  "\<not> contains (device_name ex_b) (model_of [ex_a]) \<and>
   get ''B'' (0::nat) (snd (add ex_b (model_of [ex_a]))) = Stored ex_b \<and>
   fst (pop ''B'' (snd (add ex_b (model_of [ex_a])))) = Inr ex_b \<and>
   get ''B'' (0::nat) (snd (pop ''B'' (snd (add ex_b (model_of [ex_a]))))) = Default 0"
  using add_get_pop_roundtrip [where d = ex_b and s = "model_of [ex_a]" and dflt = "0::nat" and n = "''B''"
      and t = "model_of [ex_a]"]
  by (simp add: ex contains_def dict_contains_def dict_keys_def add_def pop_def get_def emit_def)

section \<open>The primary monitors\<close>

lemma filter_loop_filter: "filter_loop P ms = filter P ms"
  by (induction ms) auto

text \<open>
  C8. \<^verbatim>\<open>get_primary_monitor()\<close> yields the same sequence as \<^verbatim>\<open>filter\<close> with the
  predicate "the descriptor's primary flag is set": the stored descriptors with
  \<open>primary = True\<close>, in the order of the model, however many there are. It has no
  failing outcome.
\<close>

theorem get_primary_monitor_is_filter:
  "get_primary_monitor s = filter_model (\<lambda>d. primary d) s \<and>
   get_primary_monitor s = spec_primary_descriptors s \<and>
   set (get_primary_monitor s) = {d \<in> set (iter s). primary d}"
  by (auto simp: get_primary_monitor_def filter_model_def spec_primary_descriptors_def iter_def filter_loop_filter)

text \<open>
  Witness: models with no, one and two primary monitors.
\<close>

theorem get_primary_monitor_is_filter_witness:
  "get_primary_monitor (model_of [ex_b, ex_c]) = [] \<and>
   get_primary_monitor (model_of [ex_a, ex_b, ex_c]) = [ex_a] \<and>
   get_primary_monitor (model_of [ex_a, ex_b, ex_c, ex_d]) = [ex_a, ex_d]"
  using get_primary_monitor_is_filter [where s = "model_of [ex_b, ex_c]"] get_primary_monitor_is_filter [where s = "model_of [ex_a, ex_b, ex_c]"]
    get_primary_monitor_is_filter [where s = "model_of [ex_a, ex_b, ex_c, ex_d]"]
  by (simp add: ex get_primary_monitor_def filter_model_def dict_values_def)

section \<open>The key invariant\<close>

lemma key_inv_setitem:
  "list_all (\<lambda>(k, m). device_name m = k) d \<Longrightarrow>
   list_all (\<lambda>(k, m). device_name m = k) (dict_setitem (device_name v) v d)"
  by (induction d) auto

lemma key_inv_dict_pop:
  "list_all (\<lambda>(k, m). device_name m = k) d \<Longrightarrow> dict_pop n d = Inr (v, rest) \<Longrightarrow>
   list_all (\<lambda>(k, m). device_name m = k) rest"
  by (induction d arbitrary: rest) (auto split: if_splits sum.splits)

lemma key_inv_add: "key_inv s \<Longrightarrow> key_inv (snd (add d s))"
  by (simp add: key_inv_def add_def emit_def key_inv_setitem)

lemma key_inv_pop: "key_inv s \<Longrightarrow> key_inv (snd (pop n s))"
  by (auto simp: key_inv_def pop_def emit_def split: sum.splits dest: key_inv_dict_pop)

lemma key_inv_remove: "key_inv s \<Longrightarrow> key_inv (snd (remove d s))"
  by (simp add: snd_remove key_inv_pop)

lemma key_inv_reset: "key_inv (reset s)"
  by (simp add: key_inv_def reset_def emit_def)

lemma key_inv_init: "key_inv init"
  by (simp add: key_inv_def init_def)

lemma reachable_key_inv: "reachable s \<Longrightarrow> key_inv s"
  by (induction rule: reachable.induct)
     (simp_all add: key_inv_init key_inv_add key_inv_remove key_inv_pop key_inv_reset)

text \<open>
  C9. Each of \<^verbatim>\<open>add\<close>, \<^verbatim>\<open>remove\<close>, \<^verbatim>\<open>pop\<close> and \<^verbatim>\<open>reset\<close> keeps the invariant that
  every entry's descriptor carries the entry's key as its device name, whether the
  call succeeds or raises. Hence in every reachable state a device name that is a key
  maps to a descriptor whose \<open>device_name\<close> is that key.
\<close>

theorem key_invariant_preserved:
  "(key_inv s \<longrightarrow>
      key_inv (snd (add d s)) \<and> key_inv (snd (remove d s)) \<and>
      key_inv (snd (pop n s)) \<and> key_inv (reset s)) \<and>
   (reachable s \<longrightarrow> (\<forall>k m. map_of (monitors s) k = Some m \<longrightarrow> device_name m = k))"
proof -
  have "device_name m = k" if "key_inv s" "map_of (monitors s) k = Some m" for k m
  proof -
    from that(2) have "(k, m) \<in> set (monitors s)" by (rule map_of_SomeD)
    with that(1) show ?thesis by (auto simp: key_inv_def list_all_iff)
  qed
  then show ?thesis
    using reachable_key_inv [of s] key_inv_add key_inv_remove key_inv_pop key_inv_reset
    by blast
qed

text \<open>
  Witness: the fresh model, and the model after one \<^verbatim>\<open>add\<close>.
\<close>

theorem key_invariant_preserved_witness:
  "key_inv init \<and> reachable (snd (add ex_a init)) \<and> key_inv (snd (add ex_a init)) \<and>
   map_of (monitors (snd (add ex_a init))) ''A'' = Some ex_a \<and> device_name ex_a = ''A''"
  using key_invariant_preserved [where s = init and d = ex_a] key_invariant_preserved [where s = "snd (add ex_a init)"]
    reach_add [OF reach_init, of ex_a]
  by (simp add: ex key_inv_def init_def add_def emit_def dict_contains_def dict_keys_def)

end
